theory Spec2Isabelle
  imports Main
begin

section \<open>JavaScript strings and truthiness\<close>

text \<open>
  Strings of the component are modelled as \<^typ>\<open>string\<close>: a character is a code unit
  below 256 (ASCII and the Latin-1 supplement). A string is truthy in a JavaScript
  condition exactly when it is not empty.
\<close>

definition truthy :: "string \<Rightarrow> bool" where
  "truthy s = (s \<noteq> [])"

text \<open>\<open>String.prototype.trim\<close>: white space and line terminators (below 256: TAB, LF, VT,
  FF, CR, SPACE and the no-break space U+00A0) are removed at both ends.\<close>

definition isWhiteSpace :: "char \<Rightarrow> bool" where
  "isWhiteSpace c =
     (c \<in> set [CHR 0x09, CHR 0x0A, CHR 0x0B, CHR 0x0C, CHR 0x0D, CHR 0x20, CHR 0xA0])"

definition trim :: "string \<Rightarrow> string" where
  "trim s = rev (dropWhile isWhiteSpace (rev (dropWhile isWhiteSpace s)))"

text \<open>\<open>String.prototype.toLowerCase\<close>: the letters A to Z (65 to 90) and the upper-case
  letters of the Latin-1 supplement (192 to 222 without the multiplication sign 215) are
  moved 32 up, every other character is kept.\<close>

definition lowerChar :: "char \<Rightarrow> char" where
  "lowerChar c =
     (let n = (of_char c :: nat)
      in if (65 \<le> n \<and> n \<le> 90) \<or> (192 \<le> n \<and> n \<le> 222 \<and> n \<noteq> 215)
         then char_of (n + 32) else c)"

definition toLowerCase :: "string \<Rightarrow> string" where
  "toLowerCase s = map lowerChar s"

text \<open>\<open>String.prototype.includes\<close>: the argument occurs as a contiguous substring.\<close>

fun startsWith :: "string \<Rightarrow> string \<Rightarrow> bool" where
  "startsWith s [] = True"
| "startsWith [] (p # ps) = False"
| "startsWith (c # cs) (p # ps) = (c = p \<and> startsWith cs ps)"

fun includes_str :: "string \<Rightarrow> string \<Rightarrow> bool" where
  "includes_str [] sub = (sub = [])"
| "includes_str (c # cs) sub = (startsWith (c # cs) sub \<or> includes_str cs sub)"

section \<open>Data model\<close>

text \<open>\<open>type OrgUnit = { id: string; displayName: string; path?: string }\<close>\<close>

datatype OrgUnit = OrgUnit (ou_id: string) (ou_displayName: string) (ou_path: "string option")

text \<open>
  The state of one \<open>TransferModal\<close>: the \<open>useState\<close> cells of the component, the
  state cell of \<open>useDebouncedValue\<close> (\<open>debouncedSearchText\<close>) and the prop
  \<open>programId\<close> supplied by the host. Props default to the empty string.
\<close>

record session =
  teiId :: string
  programId :: string
  selectedPaths :: "string list"
  selectedOuId :: "string option"
  selectedOu :: "OrgUnit option"
  currentOuId :: string
  currentOuName :: "string option"
  errorMessage :: "string option"
  statusMessage :: "string option"
  treeError :: "string option"
  isSubmitting :: bool
  searchText :: string
  debouncedSearchText :: string
  searchResults :: "OrgUnit list"
  searchError :: "string option"
  isSearching :: bool

section \<open>Transfer validator\<close>

text \<open>\<open>const destinationOuId = selectedOuId?.trim() ?? ''\<close>\<close>

definition destinationOuId :: "session \<Rightarrow> string" where
  "destinationOuId s = (case selectedOuId s of None \<Rightarrow> [] | Some v \<Rightarrow> trim v)"

text \<open>\<open>Boolean(currentOuId && destinationOuId && currentOuId === destinationOuId)\<close>\<close>

definition isSameOrgUnit :: "session \<Rightarrow> bool" where
  "isSameOrgUnit s =
     (truthy (currentOuId s) \<and> truthy (destinationOuId s) \<and> currentOuId s = destinationOuId s)"

text \<open>\<open>Boolean(teiId && programId && destinationOuId && !isSameOrgUnit && !isSubmitting)\<close>\<close>

definition isTransferEnabled :: "session \<Rightarrow> bool" where
  "isTransferEnabled s =
     (truthy (teiId s) \<and> truthy (programId s) \<and> truthy (destinationOuId s)
      \<and> \<not> isSameOrgUnit s \<and> \<not> isSubmitting s)"

section \<open>Errors and their mapping to messages\<close>

text \<open>
  A failure of the data engine is a thrown value. \<open>NonObject\<close> stands for every value
  that is \<open>null\<close>, \<open>undefined\<close> or not an object; an error object carries the optional
  \<open>message\<close> and the optional chain \<open>details.response.{status, data.message}\<close>.
\<close>

datatype response_data = ResponseData (data_message: "string option")

datatype http_response = HttpResponse (status: "int option") (data: "response_data option")

datatype error_details = ErrorDetails (response: "http_response option")

datatype js_error = NonObject | ErrorObject (message: "string option") (details: "error_details option")

text \<open>\<open>error?.details?.response\<close>\<close>

definition errorResponse :: "js_error \<Rightarrow> http_response option" where
  "errorResponse e =
     (case e of NonObject \<Rightarrow> None
      | ErrorObject m d \<Rightarrow> (case d of None \<Rightarrow> None | Some dt \<Rightarrow> response dt))"

text \<open>\<open>error?.details?.response?.status\<close>\<close>

definition errorStatus :: "js_error \<Rightarrow> int option" where
  "errorStatus e = (case errorResponse e of None \<Rightarrow> None | Some r \<Rightarrow> status r)"

text \<open>\<open>error.details?.response?.data?.message\<close>\<close>

definition responseMessage :: "js_error \<Rightarrow> string option" where
  "responseMessage e =
     (case errorResponse e of None \<Rightarrow> None
      | Some r \<Rightarrow> (case data r of None \<Rightarrow> None | Some d \<Rightarrow> data_message d))"

text \<open>The first alternative when it is present and truthy, else the second.\<close>

definition firstTruthy :: "string option \<Rightarrow> string \<Rightarrow> string" where
  "firstTruthy v other = (case v of None \<Rightarrow> other | Some x \<Rightarrow> if truthy x then x else other)"

definition getValidationMessage :: "js_error \<Rightarrow> string" where
  "getValidationMessage e =
     (case e of
        NonObject \<Rightarrow> ''Transfer failed.''
      | ErrorObject m d \<Rightarrow> firstTruthy (responseMessage e) (firstTruthy m ''Transfer failed.''))"

text \<open>A status is falsy when it is absent or zero.\<close>

definition isUnknownParamError :: "js_error \<Rightarrow> string \<Rightarrow> bool" where
  "isUnknownParamError e paramName =
     (case errorStatus e of
        None \<Rightarrow> False
      | Some st \<Rightarrow>
          if st = 0 \<or> st < 400 \<or> st \<ge> 500 then False
          else (let msg = toLowerCase (getValidationMessage e)
                in includes_str msg ''unknown parameter''
                   \<or> (includes_str msg ''parameter'' \<and> includes_str msg (toLowerCase paramName))))"

section \<open>Requests to the data engine\<close>

datatype json = JUndefined | JBool bool | JNum int | JStr string | JArr "json list"
  | JObj "(string \<times> json) list"

datatype request =
    Query (q_resource: string) (q_params: "(string \<times> json) list")
  | Mutate (m_resource: string) (m_type: string) (m_params: "(string \<times> json) list")
      (m_data: "(string \<times> json) list")

text \<open>The tracked entity as the re-fetch returns it (\<open>type TrackedEntity\<close>).\<close>

datatype tracker_event = TrackerEvent (ev_event: string) (ev_program: "string option")
  (ev_programStage: "string option") (ev_orgUnit: "string option") (ev_status: "string option")
  (ev_occurredAt: "string option") (ev_scheduledAt: "string option")

datatype enrollment = Enrollment (en_enrollment: string) (en_program: string)
  (en_orgUnit: "string option") (en_status: "string option") (en_occurredAt: "string option")
  (en_enrolledAt: "string option") (en_events: "tracker_event list option")

datatype TrackedEntity = TrackedEntity (te_trackedEntity: string)
  (te_trackedEntityType: "string option") (te_orgUnit: "string option")
  (te_enrollments: "enrollment list option")

text \<open>
  The data engine is the host's collaborator. Its answer to a request may depend on the
  request and on every request issued before it (the log); a rejected promise is \<open>Inl\<close>.
\<close>

record engine =
  mutate :: "request list \<Rightarrow> request \<Rightarrow> js_error + unit"
  query :: "request list \<Rightarrow> request \<Rightarrow> js_error + TrackedEntity"


definition MIN_SEARCH_LENGTH :: nat where
  "MIN_SEARCH_LENGTH = 2"

definition trackerFields :: string where
  "trackerFields = ''trackedEntityType,orgUnit,enrollments[enrollment,program,orgUnit,status,occurredAt,enrolledAt,events[event,program,programStage,orgUnit,status,occurredAt,scheduledAt]]''"

definition optStr :: "string option \<Rightarrow> json" where
  "optStr v = (case v of None \<Rightarrow> JUndefined | Some x \<Rightarrow> JStr x)"

section \<open>Transfer executor\<close>

text \<open>The request of \<open>attemptTransfer(paramName)\<close>.\<close>

definition attemptTransfer :: "session \<Rightarrow> string \<Rightarrow> request" where
  "attemptTransfer s paramName =
     Mutate ''tracker/ownership/transfer'' ''update''
       [(paramName, JStr (teiId s)), (''program'', JStr (programId s)),
        (''ou'', JStr (destinationOuId s))]
       [(''trackedEntity'', JStr (teiId s)), (''program'', JStr (programId s)),
        (''orgUnit'', JStr (destinationOuId s))]"

text \<open>The inner \<open>try\<close>/\<open>catch\<close>: variant A, then variant B on an unknown-parameter error.
  The result is the extended log and the outcome.\<close>

definition primaryTransfer ::
  "engine \<Rightarrow> session \<Rightarrow> request list \<Rightarrow> request list \<times> (js_error + unit)" where
  "primaryTransfer eng s log =
     (let a = attemptTransfer s ''trackedEntity''
      in case mutate eng log a of
           Inr u \<Rightarrow> (log @ [a], Inr ())
         | Inl e \<Rightarrow>
             if isUnknownParamError e ''trackedEntity''
             then (let b = attemptTransfer s ''trackedEntityInstance''
                   in (log @ [a, b], mutate eng (log @ [a]) b))
             else (log @ [a], Inl e))"

definition trackedEntityQuery :: "session \<Rightarrow> request" where
  "trackedEntityQuery s =
     Query (''tracker/trackedEntities/'' @ teiId s) [(''fields'', JStr trackerFields)]"

text \<open>\<open>trackedEntity.enrollments?.find((enrollment) => enrollment.program === programId)\<close>\<close>

definition enrollmentToUpdate :: "session \<Rightarrow> TrackedEntity \<Rightarrow> enrollment option" where
  "enrollmentToUpdate s te =
     (case te_enrollments te of
        None \<Rightarrow> None
      | Some ens \<Rightarrow> find (\<lambda>en. en_program en = programId s) ens)"

definition importParams :: "(string \<times> json) list" where
  "importParams = [(''async'', JBool False), (''importStrategy'', JStr ''UPDATE'')]"

definition enrollmentImport :: "session \<Rightarrow> TrackedEntity \<Rightarrow> enrollment \<Rightarrow> request" where
  "enrollmentImport s te en =
     Mutate ''tracker'' ''create'' importParams
       [(''enrollments'',
         JArr [JObj [(''enrollment'', JStr (en_enrollment en)),
                     (''program'', JStr (programId s)),
                     (''trackedEntity'',
                        JStr (if truthy (te_trackedEntity te) then te_trackedEntity te
                              else teiId s)),
                     (''orgUnit'', JStr (destinationOuId s))]])]"

text \<open>\<open>if (UPDATE_ENROLLMENT_ORGUNIT && enrollmentToUpdate?.enrollment) await engine.mutate(...)\<close>,
  with the flag as a parameter.\<close>

definition enrollmentStep ::
  "bool \<Rightarrow> engine \<Rightarrow> session \<Rightarrow> TrackedEntity \<Rightarrow> enrollment option \<Rightarrow> request list
   \<Rightarrow> request list \<times> (js_error + unit)" where
  "enrollmentStep flag eng s te enr log =
     (case enr of
        None \<Rightarrow> (log, Inr ())
      | Some en \<Rightarrow>
          if flag \<and> truthy (en_enrollment en)
          then (let m = enrollmentImport s te en in (log @ [m], mutate eng log m))
          else (log, Inr ()))"

definition eventPayload :: "session \<Rightarrow> enrollment \<Rightarrow> tracker_event \<Rightarrow> json" where
  "eventPayload s en ev =
     JObj [(''event'', JStr (ev_event ev)),
           (''program'', optStr (ev_program ev)),
           (''programStage'', optStr (ev_programStage ev)),
           (''enrollment'', JStr (en_enrollment en)),
           (''orgUnit'', JStr (destinationOuId s)),
           (''status'', optStr (ev_status ev)),
           (''occurredAt'', optStr (ev_occurredAt ev)),
           (''scheduledAt'', optStr (ev_scheduledAt ev))]"


text \<open>\<open>enrollmentToUpdate?.events?.map(...) ?? []\<close>\<close>

definition eventsToUpdate :: "session \<Rightarrow> enrollment option \<Rightarrow> json list" where
  "eventsToUpdate s enr =
     (case enr of
        None \<Rightarrow> []
      | Some en \<Rightarrow> (case en_events en of None \<Rightarrow> [] | Some evs \<Rightarrow> map (eventPayload s en) evs))"

definition eventsImport :: "json list \<Rightarrow> request" where
  "eventsImport evs = Mutate ''tracker'' ''create'' importParams [(''events'', JArr evs)]"

definition eventStep ::
  "engine \<Rightarrow> session \<Rightarrow> enrollment option \<Rightarrow> request list \<Rightarrow> request list \<times> (js_error + unit)" where
  "eventStep eng s enr log =
     (let evs = eventsToUpdate s enr
      in if length evs > 0
         then (let m = eventsImport evs in (log @ [m], mutate eng log m))
         else (log, Inr ()))"

text \<open>The steps after the primary transfer: re-fetch, enrollment import, event import.\<close>

definition cascade ::
  "bool \<Rightarrow> engine \<Rightarrow> session \<Rightarrow> request list \<Rightarrow> request list \<times> (js_error + unit)" where
  "cascade flag eng s log =
     (let q = trackedEntityQuery s
      in case query eng log q of
           Inl e \<Rightarrow> (log @ [q], Inl e)
         | Inr te \<Rightarrow>
             (let enr = enrollmentToUpdate s te
              in case enrollmentStep flag eng s te enr (log @ [q]) of
                   (log1, Inl e) \<Rightarrow> (log1, Inl e)
                 | (log1, Inr u) \<Rightarrow> eventStep eng s enr log1))"

text \<open>The body of the outer \<open>try\<close>.\<close>

definition transferBody ::
  "bool \<Rightarrow> engine \<Rightarrow> session \<Rightarrow> request list \<times> (js_error + unit)" where
  "transferBody flag eng s =
     (case primaryTransfer eng s [] of
        (log, Inl e) \<Rightarrow> (log, Inl e)
      | (log, Inr u) \<Rightarrow> cascade flag eng s log)"

text \<open>The early return of \<open>handleTransfer\<close>.\<close>

definition transferBlocked :: "session \<Rightarrow> bool" where
  "transferBlocked s =
     (\<not> truthy (teiId s) \<or> \<not> truthy (programId s) \<or> \<not> truthy (destinationOuId s)
      \<or> isSameOrgUnit s)"

text \<open>The state while the requests are in flight (after the three setters that open
  \<open>handleTransfer\<close>).\<close>

definition submitting :: "session \<Rightarrow> session" where
  "submitting s = s\<lparr>isSubmitting := True, statusMessage := None, errorMessage := None\<rparr>"

text \<open>\<open>handleTransfer\<close>, with the enrollment flag as a parameter: the final state and the
  requests issued, in order.\<close>

definition handleTransferWith ::
  "bool \<Rightarrow> engine \<Rightarrow> session \<Rightarrow> session \<times> request list" where
  "handleTransferWith flag eng s =
     (if transferBlocked s then (s, [])
      else case transferBody flag eng s of
             (log, Inr u) \<Rightarrow>
               ((submitting s)\<lparr>statusMessage := Some ''Transfer completed.'',
                               isSubmitting := False\<rparr>, log)
           | (log, Inl e) \<Rightarrow>
               ((submitting s)\<lparr>errorMessage := Some (getValidationMessage e),
                               isSubmitting := False\<rparr>, log))"


text \<open>Observers of the log.\<close>

definition isOwnershipTransfer :: "request \<Rightarrow> bool" where
  "isOwnershipTransfer r =
     (case r of Query res ps \<Rightarrow> False
      | Mutate res ty ps d \<Rightarrow> res = ''tracker/ownership/transfer'')"



section \<open>The transfer executor, one await at a time\<close>

text \<open>
  \<open>handleTransfer\<close> is an async function: it runs up to its first \<open>await\<close> when it is
  called, and each answer of the engine resumes it up to the next \<open>await\<close> or to its end.
  Between two awaits other handlers of the component may run. An attempt in flight is
  the closure of one call (the values of the render it was called in) and the await it is
  suspended at.
\<close>

datatype stage =
    AwaitTransferA
  | AwaitTransferB
  | AwaitRefetch
  | AwaitEnrollment TrackedEntity
  | AwaitEvents

datatype attempt = Attempt (snap: session) (stage: stage)

text \<open>Where a resumed attempt gets to: the next request and await, or the end of the
  \<open>try\<close> block with its outcome.\<close>

datatype progress = Suspended request stage | Done "js_error + unit"

text \<open>The event import, or the end when there is nothing to import.\<close>

definition eventsPhase :: "session \<Rightarrow> TrackedEntity \<Rightarrow> progress" where
  "eventsPhase c te =
     (let evs = eventsToUpdate c (enrollmentToUpdate c te)
      in if length evs > 0 then Suspended (eventsImport evs) AwaitEvents else Done (Inr ()))"

text \<open>The enrollment import when the flag asks for it, else straight on to the events.\<close>

definition enrollmentPhase :: "bool \<Rightarrow> session \<Rightarrow> TrackedEntity \<Rightarrow> progress" where
  "enrollmentPhase flag c te =
     (case enrollmentToUpdate c te of
        None \<Rightarrow> eventsPhase c te
      | Some en \<Rightarrow>
          if flag \<and> truthy (en_enrollment en)
          then Suspended (enrollmentImport c te en) (AwaitEnrollment te)
          else eventsPhase c te)"

text \<open>
  Resuming an attempt with the engine's answer to its pending request: a rejection
  (\<open>Inl\<close>) or a resolution. What a mutation resolves to is ignored; the re-fetch
  resolves to the tracked entity.
\<close>

fun resume :: "bool \<Rightarrow> session \<Rightarrow> stage \<Rightarrow> js_error + TrackedEntity \<Rightarrow> progress" where
  "resume flag c AwaitTransferA (Inr v) = Suspended (trackedEntityQuery c) AwaitRefetch"
| "resume flag c AwaitTransferA (Inl e) =
     (if isUnknownParamError e ''trackedEntity''
      then Suspended (attemptTransfer c ''trackedEntityInstance'') AwaitTransferB
      else Done (Inl e))"
| "resume flag c AwaitTransferB (Inr v) = Suspended (trackedEntityQuery c) AwaitRefetch"
| "resume flag c AwaitTransferB (Inl e) = Done (Inl e)"
| "resume flag c AwaitRefetch (Inr te) = enrollmentPhase flag c te"
| "resume flag c AwaitRefetch (Inl e) = Done (Inl e)"
| "resume flag c (AwaitEnrollment te) (Inr v) = eventsPhase c te"
| "resume flag c (AwaitEnrollment te) (Inl e) = Done (Inl e)"
| "resume flag c AwaitEvents (Inr v) = Done (Inr ())"
| "resume flag c AwaitEvents (Inl e) = Done (Inl e)"

text \<open>The \<open>catch\<close> and \<open>finally\<close> blocks and the success message, on the current state.\<close>

definition finish :: "js_error + unit \<Rightarrow> session \<Rightarrow> session" where
  "finish r s =
     (case r of
        Inr u \<Rightarrow> s\<lparr>statusMessage := Some ''Transfer completed.'', isSubmitting := False\<rparr>
      | Inl e \<Rightarrow> s\<lparr>errorMessage := Some (getValidationMessage e), isSubmitting := False\<rparr>)"

text \<open>
  The component with its attempts in flight and the requests issued so far.
  \<open>startTransfer\<close> is a call of \<open>handleTransfer\<close> up to its first \<open>await\<close>: the early
  return, the three setters, the request of variant A.
\<close>

type_synonym component = "session \<times> attempt list \<times> request list"

fun startTransfer :: "component \<Rightarrow> component" where
  "startTransfer (s, atts, log) =
     (if transferBlocked s then (s, atts, log)
      else (submitting s, atts @ [Attempt s AwaitTransferA],
            log @ [attemptTransfer s ''trackedEntity'']))"

text \<open>
  What can happen: the operator presses the Transfer button
  (\<open>onClick={handleTransfer} disabled={!isTransferEnabled}\<close>; a disabled button does not
  call its handler); the engine answers the pending request of attempt \<open>i\<close>; the operator
  selects another destination (tree, search pick or manual entry).
\<close>

datatype transfer_event =
    PressTransfer
  | EngineAnswer nat "js_error + TrackedEntity"
  | SelectOrgUnit "string option"

fun stepT :: "bool \<Rightarrow> component \<Rightarrow> transfer_event \<Rightarrow> component" where
  "stepT flag (s, atts, log) PressTransfer =
     (if \<not> isTransferEnabled s then (s, atts, log) else startTransfer (s, atts, log))"
| "stepT flag (s, atts, log) (EngineAnswer i ans) =
     (if i < length atts
      then (case resume flag (snap (atts ! i)) (stage (atts ! i)) ans of
              Suspended req st \<Rightarrow> (s, atts[i := Attempt (snap (atts ! i)) st], log @ [req])
            | Done r \<Rightarrow> (finish r s, take i atts @ drop (Suc i) atts, log))
      else (s, atts, log))"
| "stepT flag (s, atts, log) (SelectOrgUnit v) = (s\<lparr>selectedOuId := v\<rparr>, atts, log)"


text \<open>
  One attempt run to its end with nothing else happening: each pending request is
  answered by the engine, at most \<open>k\<close> times. \<open>engineAnswer\<close> is the engine's answer to
  the request issued last; what a mutation resolves to is ignored by \<open>resume\<close>, so an
  empty entity stands for it.
\<close>

definition engineAnswer :: "engine \<Rightarrow> request list \<Rightarrow> js_error + TrackedEntity" where
  "engineAnswer eng log =
     (case last log of
        Query res ps \<Rightarrow> query eng (butlast log) (last log)
      | Mutate res ty ps d \<Rightarrow>
          (case mutate eng (butlast log) (last log) of
             Inl e \<Rightarrow> Inl e
           | Inr u \<Rightarrow> Inr (TrackedEntity [] None None None)))"

fun drive :: "bool \<Rightarrow> engine \<Rightarrow> nat \<Rightarrow> component \<Rightarrow> component" where
  "drive flag eng 0 m = m"
| "drive flag eng (Suc k) (s, atts, log) =
     (if atts = [] then (s, atts, log)
      else drive flag eng k (stepT flag (s, atts, log) (EngineAnswer 0 (engineAnswer eng log))))"


section \<open>Destination selection and location search\<close>

text \<open>The \<open>onClick\<close> of a search result.\<close>

definition pickSearchResult :: "OrgUnit \<Rightarrow> session \<Rightarrow> session" where
  "pickSearchResult orgUnit s =
     s\<lparr>selectedOuId := Some (ou_id orgUnit),
       selectedPaths := [ou_id orgUnit],
       searchText := ou_displayName orgUnit,
       searchResults := []\<rparr>"

definition searchQuery :: "string \<Rightarrow> request" where
  "searchQuery trimmed =
     Query ''organisationUnits''
       [(''filter'', JStr (''displayName:ilike:'' @ trimmed)),
        (''fields'', JStr ''id,displayName''),
        (''paging'', JBool True),
        (''pageSize'', JNum 15)]"

text \<open>
  Each run of the search effect that issues a request owns a variable \<open>isActive\<close>. The
  variables live in \<open>flags\<close>, indexed by the number of the request; \<open>searchLog\<close> holds the
  requests in the order of issue; \<open>cleanup\<close> is the cleanup function the last run
  returned (the number of the variable it resets), if any; \<open>mounted\<close> is whether the
  component is still mounted.
\<close>

record search_effects =
  flags :: "bool list"
  searchLog :: "request list"
  cleanup :: "nat option"
  mounted :: bool

text \<open>The body of the search effect, run with the current debounced text.\<close>

definition searchEffect :: "session \<times> search_effects \<Rightarrow> session \<times> search_effects" where
  "searchEffect m =
     (case m of (s, rt) \<Rightarrow>
        (let trimmed = trim (debouncedSearchText s)
         in if length trimmed < MIN_SEARCH_LENGTH
            then (s\<lparr>searchResults := [], searchError := None, isSearching := False\<rparr>,
                  rt\<lparr>cleanup := None\<rparr>)
            else (s\<lparr>isSearching := True, searchError := None\<rparr>,
                  rt\<lparr>flags := flags rt @ [True],
                     searchLog := searchLog rt @ [searchQuery trimmed],
                     cleanup := Some (length (flags rt))\<rparr>)))"

text \<open>Running the cleanup function of the previous effect run: \<open>isActive = false\<close>.\<close>

definition runCleanup :: "search_effects \<Rightarrow> search_effects" where
  "runCleanup rt =
     (case cleanup rt of
        None \<Rightarrow> rt
      | Some c \<Rightarrow> rt\<lparr>flags := (flags rt)[c := False], cleanup := None\<rparr>)"

text \<open>
  The continuation of \<open>loadSearchResults\<close> after the \<open>await\<close>, when \<open>isActive\<close> holds.
  The outcome is a rejection, or a response whose \<open>organisationUnits\<close> is an array
  (\<open>Some\<close>) or not (\<open>None\<close>).
\<close>

definition commitSearch :: "js_error + OrgUnit list option \<Rightarrow> session \<Rightarrow> session" where
  "commitSearch out s =
     (case out of
        Inl e \<Rightarrow> s\<lparr>searchError := Some ''Failed to search org units.'', searchResults := [],
                   isSearching := False\<rparr>
      | Inr None \<Rightarrow> s\<lparr>searchResults := [], isSearching := False\<rparr>
      | Inr (Some rs) \<Rightarrow> s\<lparr>searchResults := rs, isSearching := False\<rparr>)"

text \<open>
  What can happen to a mounted component, as far as the search is concerned: the operator
  edits the search text; the debounce timer fires and copies the search text to the
  debounced text (the effect depends on the debounced text and runs again only when it
  changed, after the cleanup of the previous run); the response to request \<open>n\<close> arrives;
  the operator picks a result; the component is unmounted.
\<close>

datatype ui_event =
    SearchTextChanged string
  | DebounceElapsed
  | SearchResolved nat "js_error + OrgUnit list option"
  | PickResult OrgUnit
  | Unmount

fun step :: "session \<times> search_effects \<Rightarrow> ui_event \<Rightarrow> session \<times> search_effects" where
  "step (s, rt) (SearchTextChanged t) =
     (if mounted rt then (s\<lparr>searchText := t\<rparr>, rt) else (s, rt))"
| "step (s, rt) DebounceElapsed =
     (if mounted rt \<and> searchText s \<noteq> debouncedSearchText s
      then searchEffect (s\<lparr>debouncedSearchText := searchText s\<rparr>, runCleanup rt)
      else (s, rt))"
| "step (s, rt) (SearchResolved n out) =
     (if n < length (flags rt) \<and> flags rt ! n then (commitSearch out s, rt) else (s, rt))"
| "step (s, rt) (PickResult orgUnit) =
     (if mounted rt then (pickSearchResult orgUnit s, rt) else (s, rt))"
| "step (s, rt) Unmount = (s, (runCleanup rt)\<lparr>mounted := False\<rparr>)"

fun run :: "session \<times> search_effects \<Rightarrow> ui_event list \<Rightarrow> session \<times> search_effects" where
  "run m [] = m"
| "run m (e # es) = run (step m e) es"

text \<open>The component as mounted with its three props; the search effect has run once.\<close>

definition initialSession :: "string \<Rightarrow> string \<Rightarrow> string \<Rightarrow> session" where
  "initialSession initialTeiId progId currentOrgUnitId =
     \<lparr>teiId = initialTeiId, programId = progId, selectedPaths = [], selectedOuId = None,
      selectedOu = None, currentOuId = currentOrgUnitId, currentOuName = None,
      errorMessage = None, statusMessage = None, treeError = None, isSubmitting = False,
      searchText = [], debouncedSearchText = [], searchResults = [], searchError = None,
      isSearching = False\<rparr>"

definition mount :: "string \<Rightarrow> string \<Rightarrow> string \<Rightarrow> session \<times> search_effects" where
  "mount initialTeiId progId currentOrgUnitId =
     searchEffect (initialSession initialTeiId progId currentOrgUnitId,
                   \<lparr>flags = [], searchLog = [], cleanup = None, mounted = True\<rparr>)"

text \<open>What the search shows.\<close>

definition searchView :: "session \<Rightarrow> OrgUnit list \<times> string option \<times> bool" where
  "searchView s = (searchResults s, searchError s, isSearching s)"

text \<open>
  The invariant of the search effect: every request has its variable; a variable that
  still holds belongs to the run whose cleanup is pending; and that run is the latest
  one, of a mounted component, issued for the current debounced text.
\<close>

definition search_inv :: "session \<times> search_effects \<Rightarrow> bool" where
  "search_inv m =
     (case m of (s, rt) \<Rightarrow>
        length (searchLog rt) = length (flags rt)
        \<and> (\<forall>i < length (flags rt). flags rt ! i \<longrightarrow> cleanup rt = Some i)
        \<and> (case cleanup rt of
             None \<Rightarrow> True
           | Some c \<Rightarrow> mounted rt \<and> Suc c = length (flags rt)
                       \<and> searchLog rt ! c = searchQuery (trim (debouncedSearchText s))))"

section \<open>Example sessions and engines\<close>

text \<open>Case \<open>T1\<close> of program \<open>P1\<close>, currently at \<open>A\<close>, with destination \<open>B\<close> selected.\<close>

definition exampleSession :: session where
  "exampleSession = (initialSession ''T1'' ''P1'' ''A'')\<lparr>selectedOuId := Some ''B''\<rparr>"

definition unknownParamError :: js_error where
  "unknownParamError =
     ErrorObject None
       (Some (ErrorDetails (Some (HttpResponse (Some 400)
          (Some (ResponseData (Some ''Unknown parameter trackedEntity'')))))))"

text \<open>One enrollment in \<open>P1\<close> with two events.\<close>

definition exampleEnrollment :: enrollment where
  "exampleEnrollment =
     Enrollment ''E1'' ''P1'' (Some ''A'') (Some ''ACTIVE'') None None
       (Some [TrackerEvent ''V1'' (Some ''P1'') (Some ''S1'') (Some ''A'')
                (Some ''COMPLETED'') (Some ''2024-01-01'') None,
              TrackerEvent ''V2'' (Some ''P1'') (Some ''S2'') (Some ''A'')
                (Some ''SCHEDULE'') None (Some ''2024-02-01'')])"

definition exampleEntity :: TrackedEntity where
  "exampleEntity = TrackedEntity ''T1'' None (Some ''A'') (Some [exampleEnrollment])"

text \<open>A server that rejects the first request with the unknown-parameter error.\<close>

definition legacyEngine :: engine where
  "legacyEngine =
     \<lparr>mutate = (\<lambda>log r. if log = [] then Inl unknownParamError else Inr ()),
      query = (\<lambda>log r. Inr exampleEntity)\<rparr>"


text \<open>A server that accepts every mutation and fails every read.\<close>

definition offlineQueryEngine :: engine where
  "offlineQueryEngine =
     \<lparr>mutate = (\<lambda>log r. Inr ()),
      query = (\<lambda>log r. Inl (ErrorObject (Some ''Network error'') None))\<rparr>"

text \<open>A server that accepts the ownership transfer and rejects every tracker import
  with a conflict.\<close>

definition conflictError :: js_error where
  "conflictError =
     ErrorObject (Some ''Request failed'')
       (Some (ErrorDetails (Some (HttpResponse (Some 409)
          (Some (ResponseData (Some ''Conflict'')))))))"

definition rejectImportsEngine :: engine where
  "rejectImportsEngine =
     \<lparr>mutate = (\<lambda>log r. if isOwnershipTransfer r then Inr () else Inl conflictError),
      query = (\<lambda>log r. Inr exampleEntity)\<rparr>"

section \<open>Evaluation rules and auxiliary lemmas\<close>

lemmas string_eval = trim_def isWhiteSpace_def toLowerCase_def lowerChar_def char_of_def
  bit_Suc_0_iff truthy_def

lemmas session_eval = exampleSession_def initialSession_def destinationOuId_def
  isSameOrgUnit_def transferBlocked_def isTransferEnabled_def submitting_def

lemmas error_eval = unknownParamError_def errorResponse_def errorStatus_def
  responseMessage_def firstTruthy_def getValidationMessage_def isUnknownParamError_def

text \<open>\<open>includes_str\<close> is the substring relation.\<close>

lemma startsWith_iff: "startsWith m p \<longleftrightarrow> (\<exists>zs. m = p @ zs)"
  by (induction m p rule: startsWith.induct) auto

lemma includes_str_iff: "includes_str m sub \<longleftrightarrow> (\<exists>ys zs. m = ys @ sub @ zs)"
proof (induction m)
  case Nil
  then show ?case by auto
next
  case (Cons c cs)
  show ?case
  proof
    assume "includes_str (c # cs) sub"
    then consider "startsWith (c # cs) sub" | "includes_str cs sub" by auto
    then show "\<exists>ys zs. c # cs = ys @ sub @ zs"
    proof cases
      case 1
      then obtain zs where "c # cs = sub @ zs" using startsWith_iff by blast
      then have "c # cs = [] @ sub @ zs" by simp
      then show ?thesis by blast
    next
      case 2
      then obtain ys zs where "cs = ys @ sub @ zs" using Cons.IH by blast
      then have "c # cs = (c # ys) @ sub @ zs" by simp
      then show ?thesis by blast
    qed
  next
    assume "\<exists>ys zs. c # cs = ys @ sub @ zs"
    then obtain ys zs where eq: "c # cs = ys @ sub @ zs" by blast
    show "includes_str (c # cs) sub"
    proof (cases ys)
      case Nil
      then have "startsWith (c # cs) sub" using eq startsWith_iff by auto
      then show ?thesis by simp
    next
      case (Cons y ys')
      then have "cs = ys' @ sub @ zs" using eq by simp
      then have "includes_str cs sub" using Cons.IH by blast
      then show ?thesis by simp
    qed
  qed
qed

text \<open>Which requests are ownership transfers.\<close>

lemma isOwnershipTransfer_simps:
  "isOwnershipTransfer (attemptTransfer s p)"
  "\<not> isOwnershipTransfer (trackedEntityQuery s)"
  "\<not> isOwnershipTransfer (enrollmentImport s te en)"
  "\<not> isOwnershipTransfer (eventsImport evs)"
  by (simp_all add: isOwnershipTransfer_def attemptTransfer_def trackedEntityQuery_def
      enrollmentImport_def eventsImport_def)

text \<open>What each step after the primary transfer adds to the log.\<close>

lemma enrollmentStep_log:
  "enrollmentStep flag eng s te enr log = (log', r) \<Longrightarrow>
   log' = log \<or> (\<exists>en. log' = log @ [enrollmentImport s te en])"
  by (auto simp: enrollmentStep_def Let_def split: option.splits if_splits)

lemma eventStep_log:
  "eventStep eng s enr log = (log', r) \<Longrightarrow>
   log' = log @ (if eventsToUpdate s enr = [] then [] else [eventsImport (eventsToUpdate s enr)])"
  by (auto simp: eventStep_def Let_def split: if_splits)

lemma cascade_log:
  "cascade flag eng s log = (log', r) \<Longrightarrow>
   \<exists>rest. log' = log @ trackedEntityQuery s # rest \<and> (\<forall>x \<in> set rest. \<not> isOwnershipTransfer x)"
  apply (simp add: cascade_def Let_def split: sum.splits prod.splits)
   apply (auto dest!: enrollmentStep_log eventStep_log simp: isOwnershipTransfer_simps)
  done

lemma cascade_filter:
  assumes "cascade flag eng s log = (log', r)"
  shows "filter isOwnershipTransfer log' = filter isOwnershipTransfer log"
proof -
  obtain rest where "log' = log @ trackedEntityQuery s # rest"
    and "\<forall>x \<in> set rest. \<not> isOwnershipTransfer x"
    using cascade_log [OF assms] by blast
  then show ?thesis by (simp add: isOwnershipTransfer_simps)
qed

text \<open>The retry condition, spelled out.\<close>

lemma isUnknownParamError_iff:
  "isUnknownParamError e p =
     ((case errorStatus e of None \<Rightarrow> False | Some st \<Rightarrow> 400 \<le> st \<and> st < 500)
      \<and> (includes_str (toLowerCase (getValidationMessage e)) ''unknown parameter''
         \<or> (includes_str (toLowerCase (getValidationMessage e)) ''parameter''
            \<and> includes_str (toLowerCase (getValidationMessage e)) (toLowerCase p))))"
  by (auto simp: isUnknownParamError_def Let_def split: option.splits)


lemma primaryTransfer_log:
  "primaryTransfer eng s [] = (log, r) \<Longrightarrow>
   log = [attemptTransfer s ''trackedEntity''] \<or>
   log = [attemptTransfer s ''trackedEntity'', attemptTransfer s ''trackedEntityInstance'']"
  by (auto simp: primaryTransfer_def Let_def split: sum.splits if_splits)

text \<open>The mapped message is never empty, so the error notice is always rendered.\<close>

lemma getValidationMessage_nonempty: "getValidationMessage e \<noteq> []"
  by (auto simp: getValidationMessage_def firstTruthy_def truthy_def
      split: js_error.splits option.splits)





text \<open>
  \<open>handleTransfer\<close> itself never reads \<open>isSubmitting\<close>: called in a state with the flag
  set it issues the same requests. Only the disabled button keeps it from running.
\<close>

lemma ignores_submitting:
  "destinationOuId (s\<lparr>isSubmitting := b\<rparr>) = destinationOuId s"
  "transferBlocked (s\<lparr>isSubmitting := b\<rparr>) = transferBlocked s"
  "attemptTransfer (s\<lparr>isSubmitting := b\<rparr>) p = attemptTransfer s p"
  "trackedEntityQuery (s\<lparr>isSubmitting := b\<rparr>) = trackedEntityQuery s"
  "enrollmentToUpdate (s\<lparr>isSubmitting := b\<rparr>) te = enrollmentToUpdate s te"
  "enrollmentImport (s\<lparr>isSubmitting := b\<rparr>) te en = enrollmentImport s te en"
  "eventPayload (s\<lparr>isSubmitting := b\<rparr>) = eventPayload s"
  by (simp_all add: destinationOuId_def transferBlocked_def isSameOrgUnit_def
      attemptTransfer_def trackedEntityQuery_def enrollmentToUpdate_def enrollmentImport_def
      eventPayload_def fun_eq_iff split: option.splits)

lemma steps_ignore_submitting:
  "primaryTransfer eng (s\<lparr>isSubmitting := b\<rparr>) log = primaryTransfer eng s log"
  "enrollmentStep flag eng (s\<lparr>isSubmitting := b\<rparr>) te enr log = enrollmentStep flag eng s te enr log"
  "eventStep eng (s\<lparr>isSubmitting := b\<rparr>) enr log = eventStep eng s enr log"
  by (simp_all add: primaryTransfer_def enrollmentStep_def eventStep_def eventsToUpdate_def
      ignores_submitting Let_def split: option.splits sum.splits)

lemma handler_ignores_submitting:
  "snd (handleTransferWith flag eng (s\<lparr>isSubmitting := b\<rparr>)) = snd (handleTransferWith flag eng s)"
proof -
  have "cascade flag eng (s\<lparr>isSubmitting := b\<rparr>) log = cascade flag eng s log" for log
    by (simp add: cascade_def ignores_submitting steps_ignore_submitting Let_def
        split: sum.splits prod.splits)
  then have "transferBody flag eng (s\<lparr>isSubmitting := b\<rparr>) = transferBody flag eng s"
    by (simp add: transferBody_def steps_ignore_submitting split: prod.splits sum.splits)
  then show ?thesis
    by (simp add: handleTransferWith_def ignores_submitting split: prod.splits sum.splits)
qed

text \<open>No event of the search or the selection touches the Submitting flag.\<close>

lemma step_keeps_submitting: "isSubmitting (fst (step m e)) = isSubmitting (fst m)"
proof (cases m)
  case (Pair s rt)
  then show ?thesis
    by (cases e)
      (simp_all add: searchEffect_def pickSearchResult_def commitSearch_def Let_def
        split: sum.splits option.splits)
qed

text \<open>The invariant of the search effect holds at mount and after every event.\<close>

lemma runCleanup_simps:
  "cleanup (runCleanup rt) = None"
  "mounted (runCleanup rt) = mounted rt"
  "searchLog (runCleanup rt) = searchLog rt"
  "length (flags (runCleanup rt)) = length (flags rt)"
  by (simp_all add: runCleanup_def split: option.splits)

lemma runCleanup_flags:
  assumes "search_inv (s, rt)" and "i < length (flags rt)"
  shows "\<not> flags (runCleanup rt) ! i"
proof (cases "cleanup rt")
  case None
  then show ?thesis using assms by (auto simp: search_inv_def runCleanup_def)
next
  case (Some c)
  then show ?thesis using assms
    by (cases "i = c") (auto simp: search_inv_def runCleanup_def)
qed

lemma search_inv_effect:
  assumes "search_inv (s, rt)" and "mounted rt"
  shows "search_inv (searchEffect (s', runCleanup rt))"
proof -
  have len: "length (searchLog rt) = length (flags rt)"
    using assms(1) by (simp add: search_inv_def)
  have off: "\<forall>i < length (flags rt). \<not> flags (runCleanup rt) ! i"
    using runCleanup_flags [OF assms(1)] by blast
  show ?thesis
    using len off assms(2)
    by (auto simp: searchEffect_def search_inv_def Let_def runCleanup_simps nth_append
        less_Suc_eq)
qed

lemma search_inv_mount: "search_inv (mount a b c)"
  by (simp add: mount_def searchEffect_def search_inv_def Let_def initialSession_def
      MIN_SEARCH_LENGTH_def trim_def)

lemma debounced_kept:
  "debouncedSearchText (commitSearch out s) = debouncedSearchText s"
  "debouncedSearchText (pickSearchResult ou s) = debouncedSearchText s"
  by (simp_all add: commitSearch_def pickSearchResult_def split: sum.splits option.splits)

lemma search_inv_step:
  assumes "search_inv m"
  shows "search_inv (step m e)"
proof (cases m)
  case (Pair s rt)
  show ?thesis
  proof (cases e)
    case (SearchTextChanged t)
    then show ?thesis using assms Pair by (auto simp: search_inv_def split: option.splits)
  next
    case DebounceElapsed
    then show ?thesis using assms Pair search_inv_effect by simp
  next
    case (SearchResolved n out)
    then show ?thesis using assms Pair
      by (auto simp: search_inv_def debounced_kept split: option.splits)
  next
    case (PickResult ou)
    then show ?thesis using assms Pair
      by (auto simp: search_inv_def debounced_kept split: option.splits)
  next
    case Unmount
    have "\<forall>i < length (flags rt). \<not> flags (runCleanup rt) ! i"
      using runCleanup_flags assms Pair by blast
    then show ?thesis using assms Pair Unmount
      by (simp add: search_inv_def runCleanup_simps)
  qed
qed

lemma search_inv_run: "search_inv m \<Longrightarrow> search_inv (run m es)"
  by (induction es arbitrary: m) (simp_all add: search_inv_step)

text \<open>The primary transfer succeeds when the engine accepts variant A, or rejects it
  with an unknown-parameter error and accepts variant B.\<close>

lemma primary_success:
  assumes "(mutate eng [] (attemptTransfer s ''trackedEntity'') = Inr ()
            \<and> log1 = [attemptTransfer s ''trackedEntity''])
         \<or> (\<exists>e0. mutate eng [] (attemptTransfer s ''trackedEntity'') = Inl e0
               \<and> isUnknownParamError e0 ''trackedEntity''
               \<and> mutate eng [attemptTransfer s ''trackedEntity'']
                     (attemptTransfer s ''trackedEntityInstance'') = Inr ()
               \<and> log1 = [attemptTransfer s ''trackedEntity'',
                          attemptTransfer s ''trackedEntityInstance''])"
  shows "primaryTransfer eng s [] = (log1, Inr ())"
  using assms by (auto simp: primaryTransfer_def Let_def)

text \<open>A failure of the steps after the primary transfer, as the run reports it.\<close>

lemma failed_cascade_final:
  assumes "\<not> transferBlocked s"
    and "primaryTransfer eng s [] = (log1, Inr ())"
    and "cascade flag eng s log1 = (log, Inl e)"
  shows "handleTransferWith flag eng s =
           (s\<lparr>isSubmitting := False, statusMessage := None,
              errorMessage := Some (getValidationMessage e)\<rparr>, log)
         \<and> getValidationMessage e \<noteq> []
         \<and> take (length log1) log = log1
         \<and> (\<forall>r \<in> set (drop (length log1) log). \<not> isOwnershipTransfer r)
         \<and> filter isOwnershipTransfer log = log1"
proof -
  have body: "transferBody flag eng s = (log, Inl e)"
    using assms(2,3) by (simp add: transferBody_def)
  have final: "handleTransferWith flag eng s =
           (s\<lparr>isSubmitting := False, statusMessage := None,
              errorMessage := Some (getValidationMessage e)\<rparr>, log)"
    using assms(1) body by (simp add: handleTransferWith_def submitting_def)
  obtain rest where rest: "log = log1 @ trackedEntityQuery s # rest"
    and none: "\<forall>x \<in> set rest. \<not> isOwnershipTransfer x"
    using cascade_log [OF assms(3)] by blast
  have "filter isOwnershipTransfer log1 = log1"
    using primaryTransfer_log [OF assms(2)] by (auto simp: isOwnershipTransfer_simps)
  then have "filter isOwnershipTransfer log = log1"
    using cascade_filter [OF assms(3)] by simp
  then show ?thesis
    using final rest none by (simp add: isOwnershipTransfer_simps getValidationMessage_nonempty)
qed

text \<open>
  The executor run one await at a time is \<open>handleTransfer\<close>: a press of the button,
  followed by the engine's answers, ends in the state and with the log of
  \<open>handleTransferWith\<close>; five answers are enough.
\<close>

lemma drive_idle: "drive flag eng k (s, [], log) = (s, [], log)"
  by (cases k) simp_all

lemma drive_step:
  "drive flag eng (Suc k) (s, [Attempt c st], log) =
     (case resume flag c st (engineAnswer eng log) of
        Suspended req st' \<Rightarrow> drive flag eng k (s, [Attempt c st'], log @ [req])
      | Done r \<Rightarrow> (finish r s, [], log))"
  by (simp add: drive_idle split: progress.splits)

declare drive.simps [simp del]

lemma engineAnswer_simps:
  "engineAnswer eng (log @ [attemptTransfer c p]) =
     (case mutate eng log (attemptTransfer c p) of Inl e \<Rightarrow> Inl e
      | Inr u \<Rightarrow> Inr (TrackedEntity [] None None None))"
  "engineAnswer eng (log @ [enrollmentImport c te en]) =
     (case mutate eng log (enrollmentImport c te en) of Inl e \<Rightarrow> Inl e
      | Inr u \<Rightarrow> Inr (TrackedEntity [] None None None))"
  "engineAnswer eng (log @ [eventsImport evs]) =
     (case mutate eng log (eventsImport evs) of Inl e \<Rightarrow> Inl e
      | Inr u \<Rightarrow> Inr (TrackedEntity [] None None None))"
  "engineAnswer eng (log @ [trackedEntityQuery c]) = query eng log (trackedEntityQuery c)"
  by (simp_all add: engineAnswer_def attemptTransfer_def enrollmentImport_def eventsImport_def
      trackedEntityQuery_def)

lemma drive_events:
  "drive flag eng (Suc k) (s, [Attempt c AwaitEvents], log @ [eventsImport evs]) =
     (finish (mutate eng log (eventsImport evs)) s, [], log @ [eventsImport evs])"
  by (cases "mutate eng log (eventsImport evs)")
    (simp_all add: drive_step engineAnswer_simps)

lemma drive_eventsPhase:
  "(case eventsPhase c te of
      Suspended req st \<Rightarrow> drive flag eng (Suc k) (s, [Attempt c st], log @ [req])
    | Done r \<Rightarrow> (finish r s, [], log))
   = (case eventStep eng c (enrollmentToUpdate c te) log of (log', r) \<Rightarrow> (finish r s, [], log'))"
  by (simp add: eventsPhase_def eventStep_def Let_def drive_events)

lemma drive_enrollment:
  "drive flag eng (Suc (Suc k)) (s, [Attempt c (AwaitEnrollment te)], log @ [enrollmentImport c te en]) =
     (case mutate eng log (enrollmentImport c te en) of
        Inl e \<Rightarrow> (finish (Inl e) s, [], log @ [enrollmentImport c te en])
      | Inr u \<Rightarrow> (case eventStep eng c (enrollmentToUpdate c te) (log @ [enrollmentImport c te en]) of
                    (log', r) \<Rightarrow> (finish r s, [], log')))"
proof (cases "mutate eng log (enrollmentImport c te en)")
  case (Inl e)
  then show ?thesis by (simp add: drive_step engineAnswer_simps)
next
  case (Inr u)
  then show ?thesis
    using drive_eventsPhase [where c = c and te = te and flag = flag and eng = eng and k = k
        and s = s and log = "log @ [enrollmentImport c te en]"]
    by (simp add: drive_step engineAnswer_simps)
qed

lemma drive_enrollmentPhase:
  "(case enrollmentPhase flag c te of
      Suspended req st \<Rightarrow> drive flag eng (Suc (Suc k)) (s, [Attempt c st], log @ [req])
    | Done r \<Rightarrow> (finish r s, [], log))
   = (case enrollmentStep flag eng c te (enrollmentToUpdate c te) log of
        (log1, Inl e) \<Rightarrow> (finish (Inl e) s, [], log1)
      | (log1, Inr u) \<Rightarrow>
          (case eventStep eng c (enrollmentToUpdate c te) log1 of
             (log', r) \<Rightarrow> (finish r s, [], log')))"
  using drive_eventsPhase [where c = c and te = te and flag = flag and eng = eng
      and k = "Suc k" and s = s and log = log]
  by (auto simp: enrollmentPhase_def enrollmentStep_def Let_def drive_enrollment
      split: option.splits sum.splits)

lemma drive_refetch:
  "drive flag eng (Suc (Suc (Suc k))) (s, [Attempt c AwaitRefetch], log @ [trackedEntityQuery c]) =
     (case cascade flag eng c log of (log', r) \<Rightarrow> (finish r s, [], log'))"
proof (cases "query eng log (trackedEntityQuery c)")
  case (Inl e)
  then show ?thesis by (simp add: drive_step engineAnswer_simps cascade_def)
next
  case (Inr te)
  then show ?thesis
    using drive_enrollmentPhase [where flag = flag and c = c and te = te and eng = eng
        and k = k and s = s and log = "log @ [trackedEntityQuery c]"]
    by (simp add: drive_step engineAnswer_simps cascade_def Let_def
        split: prod.splits sum.splits)
qed

lemma drive_transferB:
  "drive flag eng (Suc (Suc (Suc (Suc k))))
     (s, [Attempt c AwaitTransferB], log @ [attemptTransfer c ''trackedEntityInstance'']) =
     (case mutate eng log (attemptTransfer c ''trackedEntityInstance'') of
        Inl e \<Rightarrow> (finish (Inl e) s, [], log @ [attemptTransfer c ''trackedEntityInstance''])
      | Inr u \<Rightarrow> (case cascade flag eng c (log @ [attemptTransfer c ''trackedEntityInstance'']) of
                    (log', r) \<Rightarrow> (finish r s, [], log')))"
proof (cases "mutate eng log (attemptTransfer c ''trackedEntityInstance'')")
  case (Inl e)
  then show ?thesis by (simp add: drive_step engineAnswer_simps)
next
  case (Inr u)
  then show ?thesis
    using drive_refetch [where flag = flag and eng = eng and k = k and s = s and c = c
        and log = "log @ [attemptTransfer c ''trackedEntityInstance'']"]
    by (simp add: drive_step engineAnswer_simps)
qed

lemma drive_transferA:
  "drive flag eng (Suc (Suc (Suc (Suc (Suc k)))))
     (s, [Attempt c AwaitTransferA], [attemptTransfer c ''trackedEntity'']) =
     (case transferBody flag eng c of (log', r) \<Rightarrow> (finish r s, [], log'))"
proof -
  have ans: "engineAnswer eng [attemptTransfer c ''trackedEntity''] =
     (case mutate eng [] (attemptTransfer c ''trackedEntity'') of Inl e \<Rightarrow> Inl e
      | Inr u \<Rightarrow> Inr (TrackedEntity [] None None None))"
    using engineAnswer_simps(1) [of eng "[]" c "''trackedEntity''"] by simp
  show ?thesis
  proof (cases "mutate eng [] (attemptTransfer c ''trackedEntity'')")
    case (Inl e)
    then show ?thesis
      using drive_transferB [where flag = flag and eng = eng and k = k and s = s and c = c
          and log = "[attemptTransfer c ''trackedEntity'']"]
      by (simp add: drive_step ans transferBody_def primaryTransfer_def Let_def
          split: sum.splits)
  next
    case (Inr u)
    then show ?thesis
      using drive_refetch [where flag = flag and eng = eng and k = "Suc k" and s = s and c = c
          and log = "[attemptTransfer c ''trackedEntity'']"]
      by (simp add: drive_step ans transferBody_def primaryTransfer_def Let_def)
  qed
qed

lemma press_runs_handleTransfer:
  "drive flag eng (Suc (Suc (Suc (Suc (Suc k))))) (stepT flag (s, [], []) PressTransfer) =
     (if isTransferEnabled s
      then (fst (handleTransferWith flag eng s), [], snd (handleTransferWith flag eng s))
      else (s, [], []))"
proof (cases "isTransferEnabled s")
  case False
  then show ?thesis by (simp add: drive_idle)
next
  case True
  then have "\<not> transferBlocked s"
    by (simp add: isTransferEnabled_def transferBlocked_def)
  then show ?thesis
    using True drive_transferA [where flag = flag and eng = eng and k = k
        and s = "submitting s" and c = s]
    by (simp add: handleTransferWith_def finish_def split: prod.splits sum.splits)
qed





section \<open>Properties of the validator\<close>

text \<open>
  C1. The transfer action is enabled exactly when the case id, the program id and the
  destination id are non-empty, the destination id differs from the current location id,
  and no submission is in progress. The destination id is the trimmed selected id, as the
  component computes it.
\<close>

theorem isTransferEnabled_iff:
  "isTransferEnabled s =
     (teiId s \<noteq> [] \<and> programId s \<noteq> [] \<and> destinationOuId s \<noteq> []
      \<and> destinationOuId s \<noteq> currentOuId s \<and> \<not> isSubmitting s)"
  by (auto simp: isTransferEnabled_def isSameOrgUnit_def truthy_def)

text \<open>
  C10. With an empty (unknown) current location id the destination-unchanged check never
  fires: every non-empty destination, with case id and program id present and no
  submission in progress, is enabled.
\<close>

theorem unknown_current_enables:
  "currentOuId s = [] \<Longrightarrow> destinationOuId s \<noteq> [] \<Longrightarrow> teiId s \<noteq> [] \<Longrightarrow>
   programId s \<noteq> [] \<Longrightarrow> \<not> isSubmitting s \<Longrightarrow>
   \<not> isSameOrgUnit s \<and> isTransferEnabled s"
  by (simp add: isTransferEnabled_def isSameOrgUnit_def truthy_def)

theorem unknown_current_enables_witness:
  "currentOuId (exampleSession\<lparr>currentOuId := []\<rparr>) = []
   \<and> destinationOuId (exampleSession\<lparr>currentOuId := []\<rparr>) = ''B''
   \<and> \<not> isSameOrgUnit (exampleSession\<lparr>currentOuId := []\<rparr>)
   \<and> isTransferEnabled (exampleSession\<lparr>currentOuId := []\<rparr>)"
  using unknown_current_enables [of "exampleSession\<lparr>currentOuId := []\<rparr>"]
  by (simp add: exampleSession_def initialSession_def destinationOuId_def string_eval)

section \<open>Properties of the transfer executor\<close>

text \<open>
  C2. When the first ownership-transfer mutation (variant \<open>trackedEntity\<close>) fails, the
  ownership-transfer mutations of the whole run are the first one followed by exactly one
  retry with \<open>trackedEntityInstance\<close> if the failure has a status from 400 up to 499 and
  its lower-cased message contains "unknown parameter", or "parameter" and the lower-cased
  parameter name; in every other case the first one alone. Nothing depends on the outcome
  of the retry.
\<close>

theorem retry_once_iff_unknown_param:
  assumes "\<not> transferBlocked s"
    and "mutate eng [] (attemptTransfer s ''trackedEntity'') = Inl e"
  shows "filter isOwnershipTransfer (snd (handleTransferWith flag eng s)) =
     (if (case errorStatus e of None \<Rightarrow> False | Some st \<Rightarrow> 400 \<le> st \<and> st < 500)
         \<and> (includes_str (toLowerCase (getValidationMessage e)) ''unknown parameter''
            \<or> (includes_str (toLowerCase (getValidationMessage e)) ''parameter''
               \<and> includes_str (toLowerCase (getValidationMessage e))
                    (toLowerCase ''trackedEntity'')))
      then [attemptTransfer s ''trackedEntity'', attemptTransfer s ''trackedEntityInstance'']
      else [attemptTransfer s ''trackedEntity''])"
proof (cases "isUnknownParamError e ''trackedEntity''")
  case False
  then have "primaryTransfer eng s [] = ([attemptTransfer s ''trackedEntity''], Inl e)"
    using assms(2) by (simp add: primaryTransfer_def Let_def)
  then have "snd (handleTransferWith flag eng s) = [attemptTransfer s ''trackedEntity'']"
    using assms(1) by (simp add: handleTransferWith_def transferBody_def)
  then show ?thesis
    using False unfolding isUnknownParamError_iff by (simp add: isOwnershipTransfer_simps)
next
  case True
  let ?a = "attemptTransfer s ''trackedEntity''"
  let ?b = "attemptTransfer s ''trackedEntityInstance''"
  have prim: "primaryTransfer eng s [] = ([?a, ?b], mutate eng [?a] ?b)"
    using assms(2) True by (simp add: primaryTransfer_def Let_def)
  have "filter isOwnershipTransfer (fst (transferBody flag eng s)) = [?a, ?b]"
  proof (cases "mutate eng [?a] ?b")
    case (Inl e2)
    then show ?thesis using prim by (simp add: transferBody_def isOwnershipTransfer_simps)
  next
    case (Inr u)
    obtain log' r where c: "cascade flag eng s [?a, ?b] = (log', r)" by force
    then have "transferBody flag eng s = (log', r)" using prim Inr by (simp add: transferBody_def)
    then show ?thesis using cascade_filter [OF c] by (simp add: isOwnershipTransfer_simps)
  qed
  moreover have "snd (handleTransferWith flag eng s) = fst (transferBody flag eng s)"
    using assms(1) by (simp add: handleTransferWith_def split: prod.splits sum.splits)
  ultimately show ?thesis using True unfolding isUnknownParamError_iff by simp
qed

theorem retry_once_iff_unknown_param_witness:
  "\<not> transferBlocked exampleSession
   \<and> mutate legacyEngine [] (attemptTransfer exampleSession ''trackedEntity'') = Inl unknownParamError
   \<and> filter isOwnershipTransfer (snd (handleTransferWith False legacyEngine exampleSession)) =
       [attemptTransfer exampleSession ''trackedEntity'',
        attemptTransfer exampleSession ''trackedEntityInstance'']"
proof -
  have blocked: "\<not> transferBlocked exampleSession"
    by (simp add: session_eval string_eval)
  have failed: "mutate legacyEngine [] (attemptTransfer exampleSession ''trackedEntity'')
                = Inl unknownParamError"
    by (simp add: legacyEngine_def)
  show ?thesis
    using blocked failed retry_once_iff_unknown_param [OF blocked failed, of False]
    by (simp add: error_eval string_eval)
qed

text \<open>
  C3. The engine accepted the primary transfer (variant A, or variant B after an
  unknown-parameter rejection of A). If it then rejects a later request with \<open>e\<close> (the
  re-fetch; the enrollment import, where the flag asks for one; the event import, with
  or without an accepted enrollment import before it), the run ends failed: the error
  message is the non-empty mapped message of \<open>e\<close>, no status message, not submitting.
  The log is the requests of the primary transfer followed by the later requests up to
  the rejected one, none of them an ownership-transfer mutation: the transfer is neither
  repeated nor undone.
\<close>

theorem cascade_failure_keeps_transfer:
  assumes blocked: "\<not> transferBlocked s"
    and primary:
      "(mutate eng [] (attemptTransfer s ''trackedEntity'') = Inr ()
        \<and> log1 = [attemptTransfer s ''trackedEntity''])
       \<or> (\<exists>e0. mutate eng [] (attemptTransfer s ''trackedEntity'') = Inl e0
              \<and> isUnknownParamError e0 ''trackedEntity''
              \<and> mutate eng [attemptTransfer s ''trackedEntity'']
                    (attemptTransfer s ''trackedEntityInstance'') = Inr ()
              \<and> log1 = [attemptTransfer s ''trackedEntity'',
                         attemptTransfer s ''trackedEntityInstance''])"
    and later:
      "(query eng log1 (trackedEntityQuery s) = Inl e \<and> log = log1 @ [trackedEntityQuery s])
       \<or> (\<exists>te en. query eng log1 (trackedEntityQuery s) = Inr te
              \<and> enrollmentToUpdate s te = Some en
              \<and> flag \<and> truthy (en_enrollment en)
              \<and> mutate eng (log1 @ [trackedEntityQuery s]) (enrollmentImport s te en) = Inl e
              \<and> log = log1 @ [trackedEntityQuery s, enrollmentImport s te en])
       \<or> (\<exists>te en. query eng log1 (trackedEntityQuery s) = Inr te
              \<and> enrollmentToUpdate s te = Some en
              \<and> \<not> (flag \<and> truthy (en_enrollment en))
              \<and> eventsToUpdate s (Some en) \<noteq> []
              \<and> mutate eng (log1 @ [trackedEntityQuery s])
                    (eventsImport (eventsToUpdate s (Some en))) = Inl e
              \<and> log = log1 @ [trackedEntityQuery s, eventsImport (eventsToUpdate s (Some en))])
       \<or> (\<exists>te en. query eng log1 (trackedEntityQuery s) = Inr te
              \<and> enrollmentToUpdate s te = Some en
              \<and> flag \<and> truthy (en_enrollment en)
              \<and> mutate eng (log1 @ [trackedEntityQuery s]) (enrollmentImport s te en) = Inr ()
              \<and> eventsToUpdate s (Some en) \<noteq> []
              \<and> mutate eng (log1 @ [trackedEntityQuery s, enrollmentImport s te en])
                    (eventsImport (eventsToUpdate s (Some en))) = Inl e
              \<and> log = log1 @ [trackedEntityQuery s, enrollmentImport s te en,
                               eventsImport (eventsToUpdate s (Some en))])"
  shows "handleTransferWith flag eng s =
           (s\<lparr>isSubmitting := False, statusMessage := None,
              errorMessage := Some (getValidationMessage e)\<rparr>, log)
         \<and> getValidationMessage e \<noteq> []
         \<and> take (length log1) log = log1
         \<and> (\<forall>r \<in> set (drop (length log1) log). \<not> isOwnershipTransfer r)
         \<and> filter isOwnershipTransfer log = log1"
proof -
  have prim: "primaryTransfer eng s [] = (log1, Inr ())"
    using primary by (rule primary_success)
  have "cascade flag eng s log1 = (log, Inl e)"
    using later
    by (elim disjE exE conjE)
      (auto simp: cascade_def enrollmentStep_def eventStep_def Let_def)
  then show ?thesis
    using failed_cascade_final [OF blocked prim] by blast
qed

theorem cascade_failure_keeps_transfer_witness:
  "query offlineQueryEngine [attemptTransfer exampleSession ''trackedEntity'']
       (trackedEntityQuery exampleSession) = Inl (ErrorObject (Some ''Network error'') None)
   \<and> handleTransferWith False offlineQueryEngine exampleSession =
       (exampleSession\<lparr>isSubmitting := False, statusMessage := None,
                        errorMessage := Some ''Network error''\<rparr>,
        [attemptTransfer exampleSession ''trackedEntity'', trackedEntityQuery exampleSession])
   \<and> mutate rejectImportsEngine
         [attemptTransfer exampleSession ''trackedEntity'', trackedEntityQuery exampleSession]
         (enrollmentImport exampleSession exampleEntity exampleEnrollment) = Inl conflictError
   \<and> handleTransferWith True rejectImportsEngine exampleSession =
       (exampleSession\<lparr>isSubmitting := False, statusMessage := None,
                        errorMessage := Some ''Conflict''\<rparr>,
        [attemptTransfer exampleSession ''trackedEntity'', trackedEntityQuery exampleSession,
         enrollmentImport exampleSession exampleEntity exampleEnrollment])
   \<and> mutate rejectImportsEngine
         [attemptTransfer exampleSession ''trackedEntity'', trackedEntityQuery exampleSession]
         (eventsImport (eventsToUpdate exampleSession (Some exampleEnrollment))) = Inl conflictError
   \<and> handleTransferWith False rejectImportsEngine exampleSession =
       (exampleSession\<lparr>isSubmitting := False, statusMessage := None,
                        errorMessage := Some ''Conflict''\<rparr>,
        [attemptTransfer exampleSession ''trackedEntity'', trackedEntityQuery exampleSession,
         eventsImport (eventsToUpdate exampleSession (Some exampleEnrollment))])"
proof -
  let ?a = "attemptTransfer exampleSession ''trackedEntity''"
  let ?q = "trackedEntityQuery exampleSession"
  let ?m = "enrollmentImport exampleSession exampleEntity exampleEnrollment"
  let ?v = "eventsImport (eventsToUpdate exampleSession (Some exampleEnrollment))"
  let ?net = "ErrorObject (Some ''Network error'') None"
  have blocked: "\<not> transferBlocked exampleSession"
    by (simp add: session_eval string_eval)
  have found: "enrollmentToUpdate exampleSession exampleEntity = Some exampleEnrollment"
    by (simp add: enrollmentToUpdate_def exampleEntity_def exampleEnrollment_def
        exampleSession_def initialSession_def)
  have named: "truthy (en_enrollment exampleEnrollment)"
    by (simp add: exampleEnrollment_def truthy_def)
  have events: "eventsToUpdate exampleSession (Some exampleEnrollment) \<noteq> []"
    by (simp add: eventsToUpdate_def exampleEnrollment_def)
  have msg_net: "getValidationMessage ?net = ''Network error''"
    by (simp add: error_eval string_eval)
  have msg_conflict: "getValidationMessage conflictError = ''Conflict''"
    by (simp add: conflictError_def error_eval string_eval)
  have ok1: "mutate offlineQueryEngine [] ?a = Inr ()"
    by (simp add: offlineQueryEngine_def)
  have ok2: "mutate rejectImportsEngine [] ?a = Inr ()"
    by (simp add: rejectImportsEngine_def isOwnershipTransfer_simps)
  have refetch_fails: "query offlineQueryEngine [?a] ?q = Inl ?net"
    by (simp add: offlineQueryEngine_def)
  have refetch: "query rejectImportsEngine [?a] ?q = Inr exampleEntity"
    by (simp add: rejectImportsEngine_def)
  have enrollment_fails: "mutate rejectImportsEngine [?a, ?q] ?m = Inl conflictError"
    by (simp add: rejectImportsEngine_def isOwnershipTransfer_simps)
  have events_fail: "mutate rejectImportsEngine [?a, ?q] ?v = Inl conflictError"
    by (simp add: rejectImportsEngine_def isOwnershipTransfer_simps)
  have first: "handleTransferWith False offlineQueryEngine exampleSession =
       (exampleSession\<lparr>isSubmitting := False, statusMessage := None,
                        errorMessage := Some (getValidationMessage ?net)\<rparr>, [?a, ?q])"
    using cascade_failure_keeps_transfer
            [of exampleSession offlineQueryEngine "[?a]" ?net "[?a, ?q]" False]
          blocked ok1 refetch_fails
    by simp
  have second: "handleTransferWith True rejectImportsEngine exampleSession =
       (exampleSession\<lparr>isSubmitting := False, statusMessage := None,
                        errorMessage := Some (getValidationMessage conflictError)\<rparr>,
        [?a, ?q, ?m])"
    using cascade_failure_keeps_transfer
            [of exampleSession rejectImportsEngine "[?a]" conflictError "[?a, ?q, ?m]" True]
          blocked ok2 refetch found named enrollment_fails
    by simp
  have third: "handleTransferWith False rejectImportsEngine exampleSession =
       (exampleSession\<lparr>isSubmitting := False, statusMessage := None,
                        errorMessage := Some (getValidationMessage conflictError)\<rparr>,
        [?a, ?q, ?v])"
    using cascade_failure_keeps_transfer
            [of exampleSession rejectImportsEngine "[?a]" conflictError "[?a, ?q, ?v]" False]
          blocked ok2 refetch found events events_fail
    by simp
  show ?thesis
    using first second third refetch_fails enrollment_fails events_fail
    unfolding msg_net msg_conflict by blast
qed



text \<open>
  C5. For every parameter name, so for both variants, the ownership-transfer mutation
  is an update of \<open>tracker/ownership/transfer\<close>; its params are the case id under the
  variant's name, the program id under \<open>program\<close> and the destination under \<open>ou\<close>; its
  body holds the same three values, under \<open>trackedEntity\<close>, \<open>program\<close> and \<open>orgUnit\<close>.
\<close>

theorem attemptTransfer_request:
  "m_resource (attemptTransfer s p) = ''tracker/ownership/transfer''
   \<and> m_type (attemptTransfer s p) = ''update''
   \<and> m_params (attemptTransfer s p) =
       [(p, JStr (teiId s)), (''program'', JStr (programId s)), (''ou'', JStr (destinationOuId s))]
   \<and> map snd (m_data (attemptTransfer s p)) = map snd (m_params (attemptTransfer s p))
   \<and> map fst (m_data (attemptTransfer s p)) = [''trackedEntity'', ''program'', ''orgUnit'']"
  by (simp add: attemptTransfer_def)




section \<open>Properties of the destination selection and the search\<close>

text \<open>
  C6, as stated: picking a search result clears the tree's path selection. It does not:
  after picking \<open>B\<close> the selection is the one-element list holding \<open>B\<close>.
\<close>

theorem pick_clears_paths_counterexample:
  "selectedPaths (pickSearchResult (OrgUnit ''B'' ''Bo District'' None) exampleSession) = [''B'']
   \<and> selectedPaths (pickSearchResult (OrgUnit ''B'' ''Bo District'' None) exampleSession) \<noteq> []"
  by (simp add: pickSearchResult_def)

text \<open>
  C6, amended. Picking a search result sets the selected id, and so the destination id,
  to the picked org unit's id (trimmed for the destination), replaces the tree's path
  selection by the one-element list holding that id, puts the display name into the
  search field and empties the results list.
\<close>

theorem pickSearchResult_effect:
  "selectedOuId (pickSearchResult orgUnit s) = Some (ou_id orgUnit)
   \<and> destinationOuId (pickSearchResult orgUnit s) = trim (ou_id orgUnit)
   \<and> selectedPaths (pickSearchResult orgUnit s) = [ou_id orgUnit]
   \<and> searchText (pickSearchResult orgUnit s) = ou_displayName orgUnit
   \<and> searchResults (pickSearchResult orgUnit s) = []"
  by (simp add: pickSearchResult_def destinationOuId_def)

text \<open>
  C7. Whatever the operator did and whichever responses arrived before, in whatever
  order: if the arrival of the response to request \<open>n\<close> changes the search results, the
  search error or the searching state, then the component is mounted, \<open>n\<close> is the latest
  request issued, and it was issued for the current debounced text. A response to a
  request that was superseded, or that arrives after unmounting, changes nothing.
\<close>

theorem only_current_request_commits:
  assumes "searchView (fst (step (run (mount a b c) es) (SearchResolved n out)))
           \<noteq> searchView (fst (run (mount a b c) es))"
  shows "mounted (snd (run (mount a b c) es))
     \<and> Suc n = length (searchLog (snd (run (mount a b c) es)))
     \<and> searchLog (snd (run (mount a b c) es)) ! n
         = searchQuery (trim (debouncedSearchText (fst (run (mount a b c) es))))"
proof -
  obtain s rt where m: "run (mount a b c) es = (s, rt)" by force
  have inv: "search_inv (s, rt)"
    using search_inv_run [OF search_inv_mount, of a b c es] m by simp
  have active: "n < length (flags rt) \<and> flags rt ! n"
    using assms m by (auto split: if_splits)
  then have "cleanup rt = Some n"
    using inv by (simp add: search_inv_def)
  then show ?thesis
    using inv m by (simp add: search_inv_def)
qed

theorem only_current_request_commits_witness:
  "searchView (fst (step (run (mount ''T1'' ''P1'' ''A'') [SearchTextChanged ''ab'', DebounceElapsed])
                      (SearchResolved 0 (Inr (Some [OrgUnit ''B'' ''Abo'' None])))))
     \<noteq> searchView (fst (run (mount ''T1'' ''P1'' ''A'') [SearchTextChanged ''ab'', DebounceElapsed]))
   \<and> (mounted (snd (run (mount ''T1'' ''P1'' ''A'') [SearchTextChanged ''ab'', DebounceElapsed]))
     \<and> Suc 0 = length (searchLog (snd (run (mount ''T1'' ''P1'' ''A'')
                   [SearchTextChanged ''ab'', DebounceElapsed])))
     \<and> searchLog (snd (run (mount ''T1'' ''P1'' ''A'') [SearchTextChanged ''ab'', DebounceElapsed])) ! 0
         = searchQuery (trim (debouncedSearchText (fst (run (mount ''T1'' ''P1'' ''A'')
                   [SearchTextChanged ''ab'', DebounceElapsed])))))"
proof -
  have changed: "searchView (fst (step (run (mount ''T1'' ''P1'' ''A'')
                        [SearchTextChanged ''ab'', DebounceElapsed])
                      (SearchResolved 0 (Inr (Some [OrgUnit ''B'' ''Abo'' None])))))
     \<noteq> searchView (fst (run (mount ''T1'' ''P1'' ''A'') [SearchTextChanged ''ab'', DebounceElapsed]))"
    by code_simp
  show ?thesis
    using changed only_current_request_commits [OF changed] by (rule conjI)
qed

text \<open>Two requests answered in the reverse order: the late answer to the first is dropped.\<close>

lemma stale_response_example:
  "searchView (fst (run (mount ''T1'' ''P1'' ''A'')
      [SearchTextChanged ''ab'', DebounceElapsed, SearchTextChanged ''abc'', DebounceElapsed,
       SearchResolved 1 (Inr (Some [OrgUnit ''Y'' ''Abc'' None])),
       SearchResolved 0 (Inr (Some [OrgUnit ''X'' ''Abx'' None]))]))
   = ([OrgUnit ''Y'' ''Abc'' None], None, False)"
  by code_simp

text \<open>
  C9. When the trimmed debounced text has fewer than two characters, the search effect
  issues no request (the log and the variables of the requests are as before) and sets
  the results to empty, the search error to none and the searching state to false.
\<close>

theorem short_query_no_request:
  assumes "length (trim (debouncedSearchText s)) < 2"
  shows "searchLog (snd (searchEffect (s, rt))) = searchLog rt
     \<and> flags (snd (searchEffect (s, rt))) = flags rt
     \<and> fst (searchEffect (s, rt))
         = s\<lparr>searchResults := [], searchError := None, isSearching := False\<rparr>"
  using assms by (simp add: searchEffect_def Let_def MIN_SEARCH_LENGTH_def)

theorem short_query_no_request_witness:
  "length (trim (debouncedSearchText (exampleSession\<lparr>debouncedSearchText := '' a ''\<rparr>))) < 2
   \<and> searchLog (snd (searchEffect (exampleSession\<lparr>debouncedSearchText := '' a ''\<rparr>,
        \<lparr>flags = [], searchLog = [], cleanup = None, mounted = True\<rparr>))) = []
   \<and> searchResults (fst (searchEffect (exampleSession\<lparr>debouncedSearchText := '' a ''\<rparr>,
        \<lparr>flags = [], searchLog = [], cleanup = None, mounted = True\<rparr>))) = []"
proof -
  have short: "length (trim (debouncedSearchText
                  (exampleSession\<lparr>debouncedSearchText := '' a ''\<rparr>))) < 2"
    by (simp add: string_eval)
  show ?thesis
    using short short_query_no_request [OF short,
        of "\<lparr>flags = [], searchLog = [], cleanup = None, mounted = True\<rparr>"]
    by simp
qed

end
